theory Spec2Isabelle
  imports Complex_Main
begin

section \<open>JavaScript numbers\<close>

text \<open>
  The mind map (\<^verbatim>\<open>src/main.js\<close>) computes with JavaScript numbers: IEEE 754 binary64
  values. A number is modelled as \<open>NaN\<close>, one of the two infinities, or a finite value
  given by the rational it denotes. Arithmetic rounds the exact result to the nearest
  binary64 value, ties to the even significand. The sign of zero is not modelled: none of
  the operations below can tell \<open>-0\<close> from \<open>+0\<close>, except a division by zero, which the
  program never performs (its only divisor is the literal \<open>2\<close>).
\<close>

datatype number = NaN | NegInf | Num rat | PosInf

text \<open>Number of binary digits of a positive integer.\<close>

function bitlen :: "int \<Rightarrow> nat" where
  "bitlen n = (if n \<le> 0 then 0 else Suc (bitlen (n div 2)))"
  by pat_completeness auto
termination
  by (relation "measure nat") auto

declare bitlen.simps [simp del]

text \<open>\<open>floorlog2 a\<close> is the binary exponent of \<open>a > 0\<close>: \<open>2^E \<le> a < 2^(E+1)\<close>.\<close>

definition floorlog2 :: "rat \<Rightarrow> int" where
  "floorlog2 a =
     (let (p, q) = quotient_of a;
          k = int (bitlen p) - int (bitlen q)
      in if 2 powi k \<le> a then k else k - 1)"

definition round_half_even :: "rat \<Rightarrow> int" where
  "round_half_even m =
     (let f = \<lfloor>m\<rfloor>; d = m - of_int f
      in if d < 1 / 2 then f
         else if 1 / 2 < d then f + 1
         else if even f then f else f + 1)"

text \<open>
  Binary64 values near \<open>x\<close> are the integer multiples of \<open>2 powi quantum_exp x\<close>: 53
  significant bits for normal values, the fixed spacing \<open>2^-1074\<close> for subnormal ones.
\<close>

definition quantum_exp :: "rat \<Rightarrow> int" where
  "quantum_exp x = max (floorlog2 \<bar>x\<bar> - 52) (- 1074)"

definition round64 :: "rat \<Rightarrow> number" where
  "round64 x =
     (if x = 0 then Num 0
      else let q = 2 powi quantum_exp x;
               r = of_int (round_half_even (x / q)) * q
           in if 2 powi 1024 \<le> r then PosInf
              else if r \<le> - (2 powi 1024) then NegInf
              else Num r)"

text \<open>The operators \<^verbatim>\<open>+\<close>, \<^verbatim>\<open>-\<close> and \<^verbatim>\<open>/\<close> on numbers.\<close>

fun jadd :: "number \<Rightarrow> number \<Rightarrow> number" where
  "jadd NaN _ = NaN"
| "jadd _ NaN = NaN"
| "jadd PosInf NegInf = NaN"
| "jadd NegInf PosInf = NaN"
| "jadd PosInf _ = PosInf"
| "jadd _ PosInf = PosInf"
| "jadd NegInf _ = NegInf"
| "jadd _ NegInf = NegInf"
| "jadd (Num a) (Num b) = round64 (a + b)"

fun jsub :: "number \<Rightarrow> number \<Rightarrow> number" where
  "jsub NaN _ = NaN"
| "jsub _ NaN = NaN"
| "jsub PosInf PosInf = NaN"
| "jsub NegInf NegInf = NaN"
| "jsub PosInf _ = PosInf"
| "jsub _ PosInf = NegInf"
| "jsub NegInf _ = NegInf"
| "jsub _ NegInf = PosInf"
| "jsub (Num a) (Num b) = round64 (a - b)"

fun jdiv :: "number \<Rightarrow> number \<Rightarrow> number" where
  "jdiv NaN _ = NaN"
| "jdiv _ NaN = NaN"
| "jdiv (Num a) (Num b) =
     (if b = 0 then (if a = 0 then NaN else if 0 < a then PosInf else NegInf)
      else round64 (a / b))"
| "jdiv (Num a) _ = Num 0"
| "jdiv PosInf (Num b) = (if 0 \<le> b then PosInf else NegInf)"
| "jdiv NegInf (Num b) = (if 0 \<le> b then NegInf else PosInf)"
| "jdiv _ _ = NaN"

text \<open>The comparison \<^verbatim>\<open><=\<close>: false as soon as one side is \<open>NaN\<close>.\<close>

fun jle :: "number \<Rightarrow> number \<Rightarrow> bool" where
  "jle NaN _ = False"
| "jle _ NaN = False"
| "jle NegInf _ = True"
| "jle _ PosInf = True"
| "jle PosInf _ = False"
| "jle _ NegInf = False"
| "jle (Num a) (Num b) = (a \<le> b)"

text \<open>\<^verbatim>\<open>Math.min\<close> and \<^verbatim>\<open>Math.max\<close> of two arguments: \<open>NaN\<close> if either argument is.\<close>

definition Math_min :: "number \<Rightarrow> number \<Rightarrow> number" where
  "Math_min a b = (if a = NaN \<or> b = NaN then NaN else if jle a b then a else b)"

definition Math_max :: "number \<Rightarrow> number \<Rightarrow> number" where
  "Math_max a b = (if a = NaN \<or> b = NaN then NaN else if jle a b then b else a)"

text \<open>The literal \<^verbatim>\<open>0.1\<close> denotes the binary64 value nearest to one tenth.\<close>

definition lit_0_1 :: number where
  "lit_0_1 = round64 (1 / 10)"

section \<open>Data model\<close>

text \<open>
  Nodes are the objects \<^verbatim>\<open>{ id, content, x, y }\<close> built by \<^verbatim>\<open>addNode\<close>, edges the
  objects \<^verbatim>\<open>{ id, sourceId, targetId }\<close> built by \<^verbatim>\<open>addEdge\<close>. The canvas holds the
  arrays \<^verbatim>\<open>nodes\<close> and \<^verbatim>\<open>edges\<close> and the number \<^verbatim>\<open>scale\<close>.
\<close>

record node =
  node_id :: string
  node_content :: string
  node_x :: number
  node_y :: number

record edge =
  edge_id :: string
  sourceId :: string
  targetId :: string

record canvas =
  nodes :: "node list"
  edges :: "edge list"
  scale :: number

text \<open>The \<^verbatim>\<open>detail\<close> of a \<^verbatim>\<open>node-moved\<close> event.\<close>

record moved =
  moved_id :: string
  moved_x :: number
  moved_y :: number

section \<open>Canvas\<close>

text \<open>
  \<^verbatim>\<open>const generateId = () => Math.random().toString(36).substr(2, 9);\<close>

  \<^verbatim>\<open>Math.random\<close> is the environment's: each call of \<open>generateId\<close> takes as its
  argument the text that \<^verbatim>\<open>Math.random().toString(36)\<close> evaluates to in that call
  (\<^verbatim>\<open>"0.i"\<close> when the draw is one half). \<^verbatim>\<open>substr(2, 9)\<close> keeps at most nine
  characters from index 2 on.
\<close>

definition generateId :: "string \<Rightarrow> string" where
  "generateId random36 = take 9 (drop 2 random36)"

definition MindMapCanvas_constructor :: canvas where
  "MindMapCanvas_constructor = \<lparr>nodes = [], edges = [], scale = Num 1\<rparr>"

definition handleNodeMoved :: "moved \<Rightarrow> canvas \<Rightarrow> canvas" where
  "handleNodeMoved detail c =
     c\<lparr>nodes := map (\<lambda>n. if node_id n = moved_id detail
                             then n\<lparr>node_x := moved_x detail, node_y := moved_y detail\<rparr>
                             else n) (nodes c)\<rparr>"

definition handleNodeSelected :: "string \<Rightarrow> canvas \<Rightarrow> canvas" where
  "handleNodeSelected i c = c"

definition addNode :: "string \<Rightarrow> string \<Rightarrow> number \<Rightarrow> number \<Rightarrow> canvas \<Rightarrow> canvas" where
  "addNode random36 content x y c =
     (let newNode = \<lparr>node_id = generateId random36, node_content = content,
                     node_x = x, node_y = y\<rparr>
      in c\<lparr>nodes := nodes c @ [newNode]\<rparr>)"

definition addEdge :: "string \<Rightarrow> string \<Rightarrow> string \<Rightarrow> canvas \<Rightarrow> canvas" where
  "addEdge random36 src tgt c =
     (let newEdge = \<lparr>edge_id = generateId random36, sourceId = src, targetId = tgt\<rparr>
      in c\<lparr>edges := edges c @ [newEdge]\<rparr>)"

definition zoom :: "number \<Rightarrow> canvas \<Rightarrow> canvas" where
  "zoom delta c = c\<lparr>scale := Math_max lit_0_1 (Math_min (Num 2) (jadd (scale c) delta))\<rparr>"

text \<open>
  The public operations and the two notification handlers, as one type of steps, and the
  run of a sequence of them.
\<close>

datatype canvas_op =
    AddNode string string number number
  | AddEdge string string string
  | Zoom number
  | NodeMoved moved
  | NodeSelected string

fun canvas_step :: "canvas \<Rightarrow> canvas_op \<Rightarrow> canvas" where
  "canvas_step c (AddNode random36 content x y) = addNode random36 content x y c"
| "canvas_step c (AddEdge random36 src tgt) = addEdge random36 src tgt c"
| "canvas_step c (Zoom delta) = zoom delta c"
| "canvas_step c (NodeMoved detail) = handleNodeMoved detail c"
| "canvas_step c (NodeSelected i) = handleNodeSelected i c"

definition canvas_run :: "canvas_op list \<Rightarrow> canvas \<Rightarrow> canvas" where
  "canvas_run ops c = foldl canvas_step c ops"

definition in_range :: "number \<Rightarrow> bool" where
  "in_range s = (jle lit_0_1 s \<and> jle s (Num 2))"

section \<open>Node view\<close>

text \<open>
  \<^verbatim>\<open>onDragStart\<close> captures the pointer position and the node position of the press in
  the closures \<^verbatim>\<open>onDrag\<close> and \<^verbatim>\<open>onDragEnd\<close> and registers both on \<^verbatim>\<open>window\<close>. The
  state of a view is the record bound to its \<^verbatim>\<open>data\<close> property and the listener pairs
  it has registered and not yet removed, each given by the four captured constants, in
  the order of registration.
\<close>

record drag_origin =
  startX :: number
  startY :: number
  startLeft :: number
  startTop :: number

record node_view =
  data :: node
  drags :: "drag_origin list"

text \<open>
  \<^verbatim>\<open>MindMapNode.render\<close> fills the view's shadow tree with one \<^verbatim>\<open>div\<close>, styled with
  the node's position and holding its content. It sets nothing on the
  \<^verbatim>\<open>mind-map-node\<close> element itself.
\<close>

record box =
  box_left :: number
  box_top :: number
  box_text :: string

definition MindMapNode_render :: "node_view \<Rightarrow> box" where
  "MindMapNode_render v =
     \<lparr>box_left = node_x (data v), box_top = node_y (data v), box_text = node_content (data v)\<rparr>"

definition updatePosition :: "number \<Rightarrow> number \<Rightarrow> node_view \<Rightarrow> moved" where
  "updatePosition x y v = \<lparr>moved_id = node_id (data v), moved_x = x, moved_y = y\<rparr>"

definition onDrag :: "drag_origin \<Rightarrow> number \<Rightarrow> number \<Rightarrow> node_view \<Rightarrow> moved" where
  "onDrag origin clientX clientY v =
     (let dx = jsub clientX (startX origin);
          dy = jsub clientY (startY origin);
          newX = jadd (startLeft origin) dx;
          newY = jadd (startTop origin) dy
      in updatePosition newX newY v)"

definition onDragEnd :: "drag_origin \<Rightarrow> node_view \<Rightarrow> node_view" where
  "onDragEnd origin v = v\<lparr>drags := remove1 origin (drags v)\<rparr>"

definition onDragStart :: "number \<Rightarrow> number \<Rightarrow> node_view \<Rightarrow> node_view" where
  "onDragStart clientX clientY v =
     v\<lparr>drags := drags v @
        [\<lparr>startX = clientX, startY = clientY,
          startLeft = node_x (data v), startTop = node_y (data v)\<rparr>]\<rparr>"

text \<open>
  What a view can receive: \<^verbatim>\<open>mousedown\<close> on itself, \<^verbatim>\<open>mousemove\<close> and \<^verbatim>\<open>mouseup\<close> on
  \<^verbatim>\<open>window\<close>, and a new record bound to \<^verbatim>\<open>data\<close> when the canvas renders again. A step
  returns the new state and the \<^verbatim>\<open>node-moved\<close> events dispatched, in order; on
  \<^verbatim>\<open>mouseup\<close> every registered \<^verbatim>\<open>onDragEnd\<close> runs and removes its own pair.
\<close>

datatype view_event =
    MouseDown number number
  | MouseMove number number
  | MouseUp
  | SetData node

fun view_step :: "node_view \<Rightarrow> view_event \<Rightarrow> node_view \<times> moved list" where
  "view_step v (MouseDown clientX clientY) = (onDragStart clientX clientY v, [])"
| "view_step v (MouseMove clientX clientY) =
     (v, map (\<lambda>origin. onDrag origin clientX clientY v) (drags v))"
| "view_step v MouseUp = (fold onDragEnd (drags v) v, [])"
| "view_step v (SetData n) = (v\<lparr>data := n\<rparr>, [])"

fun view_run :: "node_view \<Rightarrow> view_event list \<Rightarrow> node_view \<times> moved list" where
  "view_run v [] = (v, [])"
| "view_run v (e # es) =
     (case view_step v e of (v', out) \<Rightarrow>
        (case view_run v' es of (v'', outs) \<Rightarrow> (v'', out @ outs)))"

text \<open>Events that leave the drag state alone and keep the id of the bound record.\<close>

fun tracking :: "string \<Rightarrow> view_event \<Rightarrow> bool" where
  "tracking i (MouseMove clientX clientY) = True"
| "tracking i (SetData n) = (node_id n = i)"
| "tracking i _ = False"

fun pointer_moves :: "view_event list \<Rightarrow> (number \<times> number) list" where
  "pointer_moves [] = []"
| "pointer_moves (MouseMove clientX clientY # es) = (clientX, clientY) # pointer_moves es"
| "pointer_moves (_ # es) = pointer_moves es"

section \<open>Render tree and edge view\<close>

text \<open>
  The canvas template puts, inside one \<^verbatim>\<open>div\<close>, a \<^verbatim>\<open>mind-map-node\<close> element per node
  and then a \<^verbatim>\<open>mind-map-edge\<close> element per edge. Each gets its record through the
  property binding \<^verbatim>\<open>.data=\<close> (and the node elements two event listeners): the template
  sets no attribute on them, and no other code of the program sets one.
\<close>

datatype child = NodeChild node | EdgeChild edge

definition MindMapCanvas_render :: "canvas \<Rightarrow> number \<times> child list" where
  "MindMapCanvas_render c = (scale c, map NodeChild (nodes c) @ map EdgeChild (edges c))"

record rect =
  rect_left :: number
  rect_top :: number
  rect_width :: number
  rect_height :: number

text \<open>
  An element of the render tree, as far as the edge view reads it: its tag name, its
  attributes, and the rectangle \<^verbatim>\<open>getBoundingClientRect\<close> returns for it.
\<close>

record element =
  tagName :: string
  attributes :: "(string \<times> string) list"
  boundingClientRect :: rect

definition mount :: "rect \<Rightarrow> child \<Rightarrow> element" where
  "mount r ch =
     \<lparr>tagName = (case ch of NodeChild n \<Rightarrow> ''mind-map-node'' | EdgeChild e \<Rightarrow> ''mind-map-edge''),
      attributes = [],
      boundingClientRect = r\<rparr>"

text \<open>
  The children of the canvas's \<^verbatim>\<open>div\<close> once the template is in the document; the layout
  gives the rectangle of the child at each position.
\<close>

definition mounted :: "(nat \<Rightarrow> rect) \<Rightarrow> canvas \<Rightarrow> element list" where
  "mounted layout c =
     map (\<lambda>(i, ch). mount (layout i) ch) (enumerate 0 (snd (MindMapCanvas_render c)))"

text \<open>
  \<^verbatim>\<open>querySelector\<close> belongs to the browser. The edge view calls it with the texts
  \<^verbatim>\<open>mind-map-node[data-id="..."]\<close> only, so the model reads selectors of the shape
  \<^verbatim>\<open>tag[attribute="value"]\<close>, where the value holds no quotation mark, backslash, line
  break or null character; such a selector matches the elements with that tag name whose
  attribute has exactly that value. Any other text is answered with \<open>SyntaxError\<close>. A
  browser accepts more texts than these (escapes within the value, further selectors
  behind it); the statements below that concern a successful lookup are therefore about
  ids made of plain characters, and the one about a refused text uses a text that the CSS
  grammar refuses as well.
\<close>

datatype js_error = SyntaxError

definition css_plain :: "char \<Rightarrow> bool" where
  "css_plain ch = (ch \<notin> {CHR 0x22, CHR 0x5C, CHR 0x0A, CHR 0x0D, CHR 0x0C, CHR 0x00})"

definition css_name_char :: "char \<Rightarrow> bool" where
  "css_name_char ch = (ch \<in> set ''abcdefghijklmnopqrstuvwxyzABCDEFGHIJKLMNOPQRSTUVWXYZ0123456789-_'')"

fun split_at :: "char \<Rightarrow> string \<Rightarrow> (string \<times> string) option" where
  "split_at c [] = None"
| "split_at c (d # s) =
     (if d = c then Some ([], s)
      else case split_at c s of None \<Rightarrow> None | Some (a, b) \<Rightarrow> Some (d # a, b))"

definition parse_selector :: "string \<Rightarrow> (string \<times> string \<times> string) option" where
  "parse_selector s =
     (case split_at CHR ''['' s of
        None \<Rightarrow> None
      | Some (t, s1) \<Rightarrow>
          (case split_at CHR ''='' s1 of
             None \<Rightarrow> None
           | Some (a, s2) \<Rightarrow>
               (case s2 of
                  [] \<Rightarrow> None
                | q # s3 \<Rightarrow>
                    (case split_at (CHR 0x22) s3 of
                       None \<Rightarrow> None
                     | Some (v, s4) \<Rightarrow>
                         if q = CHR 0x22 \<and> s4 = '']'' \<and> t \<noteq> [] \<and> a \<noteq> []
                            \<and> list_all css_name_char t \<and> list_all css_name_char a
                            \<and> list_all css_plain v
                         then Some (t, a, v) else None))))"

definition querySelector :: "element list \<Rightarrow> string \<Rightarrow> js_error + element option" where
  "querySelector parent selector =
     (case parse_selector selector of
        None \<Rightarrow> Inl SyntaxError
      | Some (t, a, v) \<Rightarrow>
          Inr (find (\<lambda>el. tagName el = t \<and> map_of (attributes el) a = Some v) parent))"

text \<open>
  \<^verbatim>\<open>MindMapEdge.render\<close>: both lookups run before the test, so a lookup that throws ends
  the render whatever the other one found. The result is the empty template or the path
  \<^verbatim>\<open>M startX startY L endX endY\<close>.
\<close>

datatype template = Nothing | Line number number number number

definition node_selector :: "string \<Rightarrow> string" where
  "node_selector i = ''mind-map-node[data-id='' @ [CHR 0x22] @ i @ [CHR 0x22] @ '']''"

definition MindMapEdge_render :: "element list \<Rightarrow> edge \<Rightarrow> js_error + template" where
  "MindMapEdge_render parent e =
     (case querySelector parent (node_selector (sourceId e)) of
        Inl err \<Rightarrow> Inl err
      | Inr sourceNode \<Rightarrow>
          (case querySelector parent (node_selector (targetId e)) of
             Inl err \<Rightarrow> Inl err
           | Inr targetNode \<Rightarrow>
               (case sourceNode of
                  None \<Rightarrow> Inr Nothing
                | Some s \<Rightarrow>
                    (case targetNode of
                       None \<Rightarrow> Inr Nothing
                     | Some t \<Rightarrow>
                         (let sourceRect = boundingClientRect s;
                              targetRect = boundingClientRect t;
                              startX = jadd (rect_left sourceRect) (jdiv (rect_width sourceRect) (Num 2));
                              startY = jadd (rect_top sourceRect) (jdiv (rect_height sourceRect) (Num 2));
                              endX = jadd (rect_left targetRect) (jdiv (rect_width targetRect) (Num 2));
                              endY = jadd (rect_top targetRect) (jdiv (rect_height targetRect) (Num 2))
                          in Inr (Line startX startY endX endY))))))"

section \<open>Terms used in the statements\<close>

text \<open>
  The scenario of the specification: \<^verbatim>\<open>addNode("A", 10, 10)\<close>, \<^verbatim>\<open>addNode("B", 50, 50)\<close>,
  then \<^verbatim>\<open>addEdge\<close> with the two generated ids, for random draws whose base-36 texts are
  \<^verbatim>\<open>0.a1\<close>, \<^verbatim>\<open>0.b2\<close> and \<^verbatim>\<open>0.c3\<close>.
\<close>

definition example_canvas :: canvas where
  "example_canvas =
     canvas_run [AddNode ''0.a1'' ''A'' (Num 10) (Num 10), AddNode ''0.b2'' ''B'' (Num 50) (Num 50),
                 AddEdge ''0.c3'' ''a1'' ''b2''] MindMapCanvas_constructor"

text \<open>A sequence of \<^verbatim>\<open>addNode\<close> calls, and the node each call builds.\<close>

fun add_call :: "string \<times> string \<times> number \<times> number \<Rightarrow> canvas_op" where
  "add_call (random36, content, x, y) = AddNode random36 content x y"

fun new_node :: "string \<times> string \<times> number \<times> number \<Rightarrow> node" where
  "new_node (random36, content, x, y) =
     \<lparr>node_id = generateId random36, node_content = content, node_x = x, node_y = y\<rparr>"

text \<open>
  The \<^verbatim>\<open>detail\<close> that \<^verbatim>\<open>onDrag\<close> dispatches for the pointer position \<open>p\<close>, in terms of the
  constants captured at the press.
\<close>

definition drag_payload :: "string \<Rightarrow> drag_origin \<Rightarrow> number \<times> number \<Rightarrow> moved" where
  "drag_payload i origin p =
     \<lparr>moved_id = i,
      moved_x = jadd (startLeft origin) (jsub (fst p) (startX origin)),
      moved_y = jadd (startTop origin) (jsub (snd p) (startY origin))\<rparr>"

text \<open>A mounted view of node \<^verbatim>\<open>a1\<close> at \<open>(10, 20)\<close> with no drag in progress.\<close>

definition example_view :: node_view where
  "example_view =
     \<lparr>data = \<lparr>node_id = ''a1'', node_content = ''A'', node_x = Num 10, node_y = Num 20\<rparr>,
      drags = []\<rparr>"

text \<open>The centre of a rectangle, as \<^verbatim>\<open>MindMapEdge.render\<close> computes it.\<close>

definition center_x :: "rect \<Rightarrow> number" where
  "center_x r = jadd (rect_left r) (jdiv (rect_width r) (Num 2))"

definition center_y :: "rect \<Rightarrow> number" where
  "center_y r = jadd (rect_top r) (jdiv (rect_height r) (Num 2))"

section \<open>Rounding to binary64\<close>

text \<open>
  The binary exponent is characterised by its two bounds, which also gives a way to
  compute a rounding on paper: name the exponent and the nearest multiple of the spacing.
\<close>

lemma bitlen_bounds:
  "0 < n \<Longrightarrow> 0 < bitlen n \<and> 2 ^ (bitlen n - 1) \<le> n \<and> n < 2 ^ bitlen n"
proof (induction n rule: bitlen.induct)
  case (1 n)
  show ?case
  proof (cases "n div 2 = 0")
    case True
    with "1.prems" have "n = 1" by presburger
    then show ?thesis by (simp add: bitlen.simps)
  next
    case False
    with "1.prems" have pos: "0 < n div 2" by presburger
    from "1.IH" "1.prems" pos
    have ih: "0 < bitlen (n div 2)" "2 ^ (bitlen (n div 2) - 1) \<le> n div 2"
      "n div 2 < 2 ^ bitlen (n div 2)" by auto
    have b: "bitlen n = Suc (bitlen (n div 2))"
      using "1.prems" by (subst bitlen.simps) simp
    obtain j where j: "bitlen (n div 2) = Suc j" using ih(1) by (cases "bitlen (n div 2)") auto
    have "2 ^ bitlen (n div 2) \<le> 2 * (n div 2)" using ih(2) j by simp
    also have "\<dots> \<le> n" by presburger
    finally have lo: "2 ^ (bitlen n - 1) \<le> n" by (simp add: b)
    have "n < 2 * (n div 2 + 1)" by presburger
    also have "\<dots> \<le> 2 * 2 ^ bitlen (n div 2)" using ih(3) by simp
    finally have hi: "n < 2 ^ bitlen n" by (simp add: b)
    show ?thesis using lo hi b by simp
  qed
qed

lemma floorlog2_bounds:
  assumes "0 < a"
  shows "2 powi floorlog2 a \<le> a \<and> a < 2 powi (floorlog2 a + 1)"
proof -
  obtain p q where pq: "quotient_of a = (p, q)" by (cases "quotient_of a")
  then have q: "0 < q" and a: "a = of_int p / of_int q"
    by (auto dest: quotient_of_denom_pos quotient_of_div)
  from assms a q have p: "0 < p" by (simp add: zero_less_divide_iff)
  define bp bq where "bp = bitlen p" and "bq = bitlen q"
  define k where "k = int bp - int bq"
  from bitlen_bounds [OF p] have bp: "0 < bp" "2 ^ (bp - 1) \<le> p" "p < 2 ^ bp"
    by (simp_all add: bp_def)
  from bitlen_bounds [OF q] have bq: "0 < bq" "2 ^ (bq - 1) \<le> q" "q < 2 ^ bq"
    by (simp_all add: bq_def)
  have rp: "(2::rat) ^ (bp - 1) \<le> of_int p" "of_int p < (2::rat) ^ bp"
    using bp(2,3) by (metis of_int_le_iff of_int_numeral of_int_power, metis of_int_less_iff of_int_numeral of_int_power)
  have rq: "(2::rat) ^ (bq - 1) \<le> of_int q" "of_int q < (2::rat) ^ bq"
    using bq(2,3) by (metis of_int_le_iff of_int_numeral of_int_power, metis of_int_less_iff of_int_numeral of_int_power)
  have qpos: "(0::rat) < of_int q" using q by simp
  have hi: "a < 2 powi (k + 1)"
  proof -
    have "a * 2 ^ (bq - 1) \<le> a * of_int q" using rq(1) assms by simp
    also have "\<dots> = of_int p" using a qpos by simp
    also have "\<dots> < 2 ^ bp" by (rule rp(2))
    finally have "a < 2 ^ bp / 2 ^ (bq - 1)" by (simp add: pos_less_divide_eq)
    also have "\<dots> = 2 powi (int bp - int (bq - 1))"
      by (simp add: power_int_diff)
    also have "int bp - int (bq - 1) = k + 1" using bq(1) by (simp add: k_def)
    finally show ?thesis .
  qed
  have lo: "2 powi (k - 1) < a"
  proof -
    have "(2::rat) ^ (bp - 1) \<le> of_int p" by (rule rp(1))
    also have "\<dots> = a * of_int q" using a qpos by simp
    also have "\<dots> < a * 2 ^ bq" using rq(2) assms by simp
    finally have "(2::rat) ^ (bp - 1) / 2 ^ bq < a" by (simp add: pos_divide_less_eq)
    moreover have "(2::rat) ^ (bp - 1) / 2 ^ bq = 2 powi (int (bp - 1) - int bq)"
      by (simp add: power_int_diff)
    moreover have "int (bp - 1) - int bq = k - 1" using bp(1) by (simp add: k_def)
    ultimately show ?thesis by simp
  qed
  have fl: "floorlog2 a = (if 2 powi k \<le> a then k else k - 1)"
    by (simp add: floorlog2_def pq k_def bp_def bq_def)
  show ?thesis
  proof (cases "2 powi k \<le> a")
    case True
    with fl hi show ?thesis by simp
  next
    case False
    with fl lo show ?thesis by simp
  qed
qed

lemma floorlog2_eqI:
  assumes "2 powi E \<le> a" and "a < 2 powi (E + 1)"
  shows "floorlog2 a = E"
proof -
  have "(0::rat) < 2 powi E" by simp
  with assms(1) have pos: "0 < a" by linarith
  note b = floorlog2_bounds [OF pos]
  have "(2::rat) powi floorlog2 a < 2 powi (E + 1)" using b assms(2) by simp
  then have 1: "floorlog2 a < E + 1"
    by (metis linorder_not_le one_less_numeral_iff power_int_increasing order_less_imp_le semiring_norm(76))
  have "(2::rat) powi E < 2 powi (floorlog2 a + 1)" using b assms(1) by simp
  then have 2: "E < floorlog2 a + 1"
    by (metis linorder_not_le one_less_numeral_iff power_int_increasing order_less_imp_le semiring_norm(76))
  from 1 2 show ?thesis by simp
qed

lemma two_powi_less_cancel: "(2::rat) powi a < 2 powi b \<Longrightarrow> a < b"
proof (rule ccontr)
  assume l: "(2::rat) powi a < 2 powi b" and n: "\<not> a < b"
  from n have "b \<le> a" by simp
  then have "(2::rat) powi b \<le> 2 powi a" by (rule power_int_increasing) simp
  with l show False by simp
qed

lemma floorlog2_mono:
  assumes "0 < x" and "x \<le> c"
  shows "floorlog2 x \<le> floorlog2 c"
proof -
  from assms have c: "0 < c" by simp
  have "2 powi floorlog2 x \<le> x" using floorlog2_bounds [OF assms(1)] by simp
  also note assms(2)
  also have "c < 2 powi (floorlog2 c + 1)" using floorlog2_bounds [OF c] by simp
  finally have "floorlog2 x < floorlog2 c + 1" by (rule two_powi_less_cancel)
  then show ?thesis by simp
qed

lemma round_half_even_le: "m \<le> of_int K \<Longrightarrow> round_half_even m \<le> K"
proof -
  assume m: "m \<le> of_int K"
  then have f: "\<lfloor>m\<rfloor> \<le> K" by (simp add: floor_le_iff) 
  show ?thesis
  proof (cases "\<lfloor>m\<rfloor> = K")
    case True
    with m have "m - of_int \<lfloor>m\<rfloor> \<le> 0" by simp
    then show ?thesis using True by (simp add: round_half_even_def Let_def)
  next
    case False
    with f have "\<lfloor>m\<rfloor> + 1 \<le> K" by simp
    then show ?thesis using f by (simp add: round_half_even_def Let_def)
  qed
qed

lemma round_half_even_ge: "of_int K \<le> m \<Longrightarrow> K \<le> round_half_even m"
proof -
  assume "of_int K \<le> m"
  then have "K \<le> \<lfloor>m\<rfloor>" by (simp add: le_floor_iff)
  then show ?thesis by (simp add: round_half_even_def Let_def)
qed

lemma round_half_even_of_int [simp]: "round_half_even (of_int K) = K"
  by (simp add: round_half_even_def)

lemma quantum_exp_mono:
  assumes "0 < x" and "x \<le> c"
  shows "quantum_exp x \<le> quantum_exp c"
proof -
  from assms have "floorlog2 \<bar>x\<bar> \<le> floorlog2 \<bar>c\<bar>"
    using floorlog2_mono [of x c] by simp
  then show ?thesis by (simp add: quantum_exp_def)
qed

lemma round64_cases:
  assumes "x \<noteq> 0"
  defines "r \<equiv> of_int (round_half_even (x / 2 powi quantum_exp x)) * 2 powi quantum_exp x"
  shows "round64 x = (if 2 powi 1024 \<le> r then PosInf else if r \<le> - (2 powi 1024) then NegInf else Num r)"
  using assms by (simp add: round64_def Let_def)

lemma round64_upper:
  assumes c: "0 < c" "c < 2 powi 1024" "c = of_int K * 2 powi quantum_exp c"
    and x: "x \<le> c"
  shows "jle (round64 x) (Num c)"
proof -
  define q where "q = (2::rat) powi quantum_exp x"
  define r where "r = of_int (round_half_even (x / q)) * q"
  have q: "0 < q" by (simp add: q_def)
  consider "x = 0" | "x < 0" | "0 < x" by linarith
  then show ?thesis
  proof cases
    case 1
    then show ?thesis using c(1) by (simp add: round64_def)
  next
    case 2
    then have "x / q \<le> of_int 0" using q by (simp add: divide_le_0_iff)
    then have "round_half_even (x / q) \<le> 0" by (rule round_half_even_le)
    then have "r \<le> 0" using q by (simp add: r_def mult_le_0_iff)
    moreover have "(0::rat) < 2 powi 1024" by simp
    ultimately have "\<not> 2 powi 1024 \<le> r" "r \<le> c" using c(1) by linarith+
    moreover have "round64 x = (if 2 powi 1024 \<le> r then PosInf else if r \<le> - (2 powi 1024) then NegInf else Num r)"
      using 2 round64_cases [of x] by (simp add: r_def q_def)
    ultimately show ?thesis by simp
  next
    case 3
    from quantum_exp_mono [OF 3 x] obtain n :: nat
      where n: "quantum_exp c = quantum_exp x + int n"
      by (auto simp: zle_iff_zadd)
    have "(2::rat) powi quantum_exp c = 2 powi quantum_exp x * 2 ^ n"
      by (simp add: n power_int_add)
    with c(3) have cq: "c = of_int (K * 2 ^ n) * q" by (simp add: q_def)
    have "x / q \<le> c / q" using x q by (simp add: divide_right_mono)
    also have "c / q = of_int (K * 2 ^ n)" using q by (subst cq) simp
    finally have "round_half_even (x / q) \<le> K * 2 ^ n" by (rule round_half_even_le)
    then have "r \<le> of_int (K * 2 ^ n) * q"
      unfolding r_def using q by (simp only: mult_le_cancel_right_pos of_int_le_iff)
    then have rc: "r \<le> c" using cq by simp
    have "of_int 0 \<le> x / q" using 3 q by simp
    then have "0 \<le> round_half_even (x / q)" by (rule round_half_even_ge)
    then have "0 \<le> r" using q by (simp add: r_def)
    moreover have "(0::rat) < 2 powi 1024" by simp
    ultimately have "\<not> r \<le> - (2 powi 1024)" by linarith
    moreover have "\<not> 2 powi 1024 \<le> r" using rc c(2) by linarith
    moreover have "round64 x = (if 2 powi 1024 \<le> r then PosInf else if r \<le> - (2 powi 1024) then NegInf else Num r)"
      using 3 round64_cases [of x] by (simp add: r_def q_def)
    ultimately show ?thesis using rc by simp
  qed
qed

lemma round64_lower:
  assumes c: "0 < c" "c = of_int K * 2 powi quantum_exp c"
    and x: "c \<le> x"
  shows "jle (Num c) (round64 x)"
proof -
  define q where "q = (2::rat) powi quantum_exp x"
  define r where "r = of_int (round_half_even (x / q)) * q"
  have q: "0 < q" by (simp add: q_def)
  from c(1) x have xpos: "0 < x" by simp
  have le: "quantum_exp c \<le> quantum_exp x" by (rule quantum_exp_mono [OF c(1) x])
  have rc: "c \<le> r"
  proof (cases "quantum_exp x = quantum_exp c")
    case True
    with c(2) have cq: "c = of_int K * q" by (simp add: q_def)
    have "c / q \<le> x / q" using x q by (simp add: divide_right_mono)
    moreover have "c / q = of_int K" using q by (subst cq) simp
    ultimately have "of_int K \<le> x / q" by simp
    then have "K \<le> round_half_even (x / q)" by (rule round_half_even_ge)
    then have "of_int K * q \<le> r"
      unfolding r_def using q by (simp only: mult_le_cancel_right_pos of_int_le_iff)
    then show ?thesis using cq by simp
  next
    case False
    with le have lt: "quantum_exp c < quantum_exp x" by simp
    have "- 1074 \<le> quantum_exp c" by (simp add: quantum_exp_def)
    with lt have ex: "quantum_exp x = floorlog2 x - 52"
      using xpos by (simp add: quantum_exp_def max_def split: if_splits)
    have "floorlog2 c - 52 \<le> quantum_exp c" using c(1) by (simp add: quantum_exp_def)
    with lt ex have fl: "floorlog2 c + 1 \<le> floorlog2 x" by simp
    have "(2::rat) powi floorlog2 x = 2 powi 52 * q"
      by (simp add: q_def ex power_int_diff)
    also have "(2::rat) powi 52 = of_int (2 ^ 52)" by simp
    finally have px: "(2::rat) powi floorlog2 x = of_int (2 ^ 52) * q" .
    have "2 powi floorlog2 x \<le> x" using floorlog2_bounds [OF xpos] by simp
    then have "of_int (2 ^ 52) * q / q \<le> x / q"
      using q by (simp only: px divide_right_mono less_imp_le)
    then have "of_int (2 ^ 52) \<le> x / q" using q by simp
    then have "2 ^ 52 \<le> round_half_even (x / q)" by (rule round_half_even_ge)
    then have "of_int (2 ^ 52) * q \<le> r"
      unfolding r_def using q by (simp only: mult_le_cancel_right_pos of_int_le_iff)
    then have "2 powi floorlog2 x \<le> r" by (simp only: px)
    moreover have "(2::rat) powi (floorlog2 c + 1) \<le> 2 powi floorlog2 x"
      using fl by (rule power_int_increasing) simp
    moreover have "c < 2 powi (floorlog2 c + 1)" using floorlog2_bounds [OF c(1)] by simp
    ultimately show ?thesis by linarith
  qed
  have "(0::rat) < 2 powi 1024" by simp
  with rc c(1) have "\<not> r \<le> - (2 powi 1024)" by linarith
  moreover have "round64 x = (if 2 powi 1024 \<le> r then PosInf else if r \<le> - (2 powi 1024) then NegInf else Num r)"
    using xpos round64_cases [of x] by (simp add: r_def q_def)
  ultimately show ?thesis using rc by simp
qed

lemma round64_eval:
  assumes lo: "2 powi E \<le> \<bar>x\<bar>" and hi: "\<bar>x\<bar> < 2 powi (E + 1)"
    and E: "- 1022 \<le> E" "E \<le> 1022"
  shows "round64 x = Num (of_int (round_half_even (x / 2 powi (E - 52))) * 2 powi (E - 52))"
proof -
  define q where "q = (2::rat) powi (E - 52)"
  define r where "r = of_int (round_half_even (x / q)) * q"
  have q: "0 < q" by (simp add: q_def)
  have "(0::rat) < 2 powi E" by simp
  with lo have "0 < \<bar>x\<bar>" by linarith
  then have x0: "x \<noteq> 0" by simp
  have fl: "floorlog2 \<bar>x\<bar> = E" using lo hi by (rule floorlog2_eqI)
  then have qe: "quantum_exp x = E - 52" using E by (simp add: quantum_exp_def)
  have pq: "(2::rat) powi (E + 1) = of_int (2 ^ 53) * q"
    by (simp add: q_def power_int_diff power_int_add)
  have "\<bar>x\<bar> / q \<le> of_int (2 ^ 53) * q / q"
    using hi q by (simp only: pq divide_right_mono less_imp_le)
  then have ax: "\<bar>x / q\<bar> \<le> of_int (2 ^ 53)" using q by simp
  then have "x / q \<le> of_int (2 ^ 53)" by linarith
  then have u: "round_half_even (x / q) \<le> 2 ^ 53" by (rule round_half_even_le)
  from ax have "- of_int (2 ^ 53) \<le> x / q" by linarith
  then have "of_int (- (2 ^ 53)) \<le> x / q" by (simp only: of_int_minus)
  then have l: "- (2 ^ 53) \<le> round_half_even (x / q)" by (rule round_half_even_ge)
  have "r \<le> of_int (2 ^ 53) * q"
    unfolding r_def using q u by (simp only: mult_le_cancel_right_pos of_int_le_iff)
  then have ru: "r \<le> 2 powi (E + 1)" by (simp only: pq)
  have "of_int (- (2 ^ 53)) * q \<le> r"
    unfolding r_def using q l by (simp only: mult_le_cancel_right_pos of_int_le_iff)
  then have rl: "- (2 powi (E + 1)) \<le> r" by (simp add: pq)
  have "(2::rat) powi (E + 1) < 2 powi 1024"
    using E by (intro power_int_strict_increasing) simp_all
  with ru rl have "\<not> 2 powi 1024 \<le> r" "\<not> r \<le> - (2 powi 1024)" by linarith+
  moreover have "round64 x = (if 2 powi 1024 \<le> r then PosInf else if r \<le> - (2 powi 1024) then NegInf else Num r)"
    using x0 round64_cases [of x] by (simp add: r_def q_def qe)
  ultimately show ?thesis by (simp add: r_def q_def)
qed

lemma round_half_even_near:
  assumes "\<bar>m - of_int n\<bar> < 1 / 2"
  shows "round_half_even m = n"
proof (cases "of_int n \<le> m")
  case True
  with assms have "m < of_int n + 1" by linarith
  with True have f: "\<lfloor>m\<rfloor> = n" by (simp add: floor_unique)
  from assms True have "m - of_int n < 1 / 2" by linarith
  with f show ?thesis by (simp add: round_half_even_def Let_def)
next
  case False
  with assms have "of_int n - 1 \<le> m" "m < of_int n - 1 + 1" by linarith+
  then have "of_int (n - 1) \<le> m" "m < of_int (n - 1) + 1" by simp_all
  then have f: "\<lfloor>m\<rfloor> = n - 1" by (rule floor_unique)
  from assms False have "1 / 2 < m - (of_int n - 1)" by linarith
  then have "1 / 2 < m - of_int (n - 1)" by simp
  with f show ?thesis by (simp add: round_half_even_def Let_def)
qed

lemma round64_near:
  assumes "2 powi E \<le> \<bar>x\<bar>" and "\<bar>x\<bar> < 2 powi (E + 1)"
    and "- 1022 \<le> E" and "E \<le> 1022"
    and "\<bar>x / 2 powi (E - 52) - of_int n\<bar> < 1 / 2"
    and "r = of_int n * 2 powi (E - 52)"
  shows "round64 x = Num r"
  using round64_eval [OF assms(1-4)] round_half_even_near [OF assms(5)] assms(6) by simp

lemma lit_0_1_value: "lit_0_1 = Num (3602879701896397 / 36028797018963968)"
  unfolding lit_0_1_def
  by (rule round64_near [where E = "- 4" and n = 7205759403792794]) simp_all

lemma round64_not_NaN [simp]: "round64 x \<noteq> NaN"
  by (simp add: round64_def Let_def)

lemma jadd_Num_not_NaN: "d \<noteq> NaN \<Longrightarrow> jadd (Num s) d \<noteq> NaN"
  by (cases d) simp_all

lemma quantum_exp_tenth: "quantum_exp (3602879701896397 / 36028797018963968) = - 56"
proof -
  have "floorlog2 \<bar>3602879701896397 / 36028797018963968\<bar> = - 4"
    by (rule floorlog2_eqI) simp_all
  then show ?thesis by (simp add: quantum_exp_def)
qed

lemma quantum_exp_two: "quantum_exp 2 = - 51"
proof -
  have "floorlog2 \<bar>2\<bar> = 1"
    by (rule floorlog2_eqI) simp_all
  then show ?thesis by (simp add: quantum_exp_def)
qed

lemma round64_le_tenth:
  assumes "x \<le> 3602879701896397 / 36028797018963968"
  shows "jle (round64 x) lit_0_1"
  unfolding lit_0_1_value
  by (rule round64_upper [where K = 7205759403792794, OF _ _ _ assms])
    (simp_all add: quantum_exp_tenth)

lemma round64_ge_two:
  assumes "2 \<le> x"
  shows "jle (Num 2) (round64 x)"
  by (rule round64_lower [where K = "2 ^ 52", OF _ _ assms])
    (simp_all add: quantum_exp_two)

section \<open>Zoom\<close>

text \<open>
  \<^verbatim>\<open>this.scale = Math.max(0.1, Math.min(2, this.scale + delta));\<close>
\<close>

lemma clamp_low: "jle t lit_0_1 \<Longrightarrow> Math_max lit_0_1 (Math_min (Num 2) t) = lit_0_1"
  unfolding lit_0_1_value by (cases t) (auto simp: Math_max_def Math_min_def)

lemma clamp_high: "jle (Num 2) t \<Longrightarrow> Math_max lit_0_1 (Math_min (Num 2) t) = Num 2"
  unfolding lit_0_1_value by (cases t) (auto simp: Math_max_def Math_min_def)

lemma clamp_Num:
  "Math_max lit_0_1 (Math_min (Num 2) (Num r)) =
     Num (max (3602879701896397 / 36028797018963968) (min 2 r))"
  unfolding lit_0_1_value by (auto simp: Math_max_def Math_min_def)

lemma clamp_in_range: "t \<noteq> NaN \<Longrightarrow> in_range (Math_max lit_0_1 (Math_min (Num 2) t))"
  unfolding lit_0_1_value in_range_def by (cases t) (auto simp: Math_max_def Math_min_def)

lemma scale_zoom: "scale (zoom d c) = Math_max lit_0_1 (Math_min (Num 2) (jadd (scale c) d))"
  by (simp add: zoom_def)

lemma zoom_out_at_min:
  assumes "scale c = lit_0_1" and "jle d (Num 0)"
  shows "scale (zoom d c) = lit_0_1"
proof -
  have "jle (jadd lit_0_1 d) lit_0_1"
  proof (cases d)
    case (Num r)
    with assms(2) have "3602879701896397 / 36028797018963968 + r \<le> 3602879701896397 / 36028797018963968"
      by simp
    then have "jle (round64 (3602879701896397 / 36028797018963968 + r)) lit_0_1"
      by (rule round64_le_tenth)
    then show ?thesis by (simp add: Num lit_0_1_value)
  qed (use assms(2) in \<open>simp_all add: lit_0_1_value\<close>)
  then show ?thesis by (simp add: scale_zoom assms(1) clamp_low)
qed

lemma zoom_in_at_max:
  assumes "scale c = Num 2" and "jle (Num 0) d"
  shows "scale (zoom d c) = Num 2"
proof -
  have "jle (Num 2) (jadd (Num 2) d)"
  proof (cases d)
    case (Num r)
    with assms(2) have "2 \<le> 2 + r" by simp
    then have "jle (Num 2) (round64 (2 + r))" by (rule round64_ge_two)
    then show ?thesis by (simp add: Num)
  qed (use assms(2) in simp_all)
  then show ?thesis by (simp add: scale_zoom assms(1) clamp_high)
qed

lemma canvas_run_Nil [simp]: "canvas_run [] c = c"
  by (simp add: canvas_run_def)

lemma canvas_run_Cons [simp]: "canvas_run (op # ops) c = canvas_run ops (canvas_step c op)"
  by (simp add: canvas_run_def)

lemma canvas_run_append: "canvas_run (ops @ ops') c = canvas_run ops' (canvas_run ops c)"
  by (simp add: canvas_run_def)

lemma zooms_out_at_min:
  "scale c = lit_0_1 \<Longrightarrow> \<forall>d \<in> set ds. jle d (Num 0) \<Longrightarrow>
     scale (canvas_run (map Zoom ds) c) = lit_0_1"
  by (induction ds arbitrary: c) (simp_all add: zoom_out_at_min)

lemma zooms_in_at_max:
  "scale c = Num 2 \<Longrightarrow> \<forall>d \<in> set ds. jle (Num 0) d \<Longrightarrow>
     scale (canvas_run (map Zoom ds) c) = Num 2"
  by (induction ds arbitrary: c) (simp_all add: zoom_in_at_max)

lemma zoom_in_sum_1:
  "jadd (Num (1)) lit_0_1 = Num (2476979795053773 / 2251799813685248)"
  unfolding lit_0_1_value jadd.simps
  by (rule round64_near [where E = 0 and n = 4953959590107546]) simp_all

lemma zoom_in_sum_2:
  "jadd (Num (2476979795053773 / 2251799813685248)) lit_0_1 = Num (1351079888211149 / 1125899906842624)"
  unfolding lit_0_1_value jadd.simps
  by (rule round64_near [where E = 0 and n = 5404319552844596]) simp_all

lemma zoom_in_sum_3:
  "jadd (Num (1351079888211149 / 1125899906842624)) lit_0_1 = Num (2927339757790823 / 2251799813685248)"
  unfolding lit_0_1_value jadd.simps
  by (rule round64_near [where E = 0 and n = 5854679515581646]) simp_all

lemma zoom_in_sum_4:
  "jadd (Num (2927339757790823 / 2251799813685248)) lit_0_1 = Num (788129934789837 / 562949953421312)"
  unfolding lit_0_1_value jadd.simps
  by (rule round64_near [where E = 0 and n = 6305039478318696]) simp_all

lemma zoom_in_sum_5:
  "jadd (Num (788129934789837 / 562949953421312)) lit_0_1 = Num (3377699720527873 / 2251799813685248)"
  unfolding lit_0_1_value jadd.simps
  by (rule round64_near [where E = 0 and n = 6755399441055746]) simp_all

lemma zoom_in_sum_6:
  "jadd (Num (3377699720527873 / 2251799813685248)) lit_0_1 = Num (1801439850948199 / 1125899906842624)"
  unfolding lit_0_1_value jadd.simps
  by (rule round64_near [where E = 0 and n = 7205759403792796]) simp_all

lemma zoom_in_sum_7:
  "jadd (Num (1801439850948199 / 1125899906842624)) lit_0_1 = Num (3828059683264923 / 2251799813685248)"
  unfolding lit_0_1_value jadd.simps
  by (rule round64_near [where E = 0 and n = 7656119366529846]) simp_all

lemma zoom_in_sum_8:
  "jadd (Num (3828059683264923 / 2251799813685248)) lit_0_1 = Num (506654958079181 / 281474976710656)"
  unfolding lit_0_1_value jadd.simps
  by (rule round64_near [where E = 0 and n = 8106479329266896]) simp_all

lemma zoom_in_sum_9:
  "jadd (Num (506654958079181 / 281474976710656)) lit_0_1 = Num (4278419646001973 / 2251799813685248)"
  unfolding lit_0_1_value jadd.simps
  by (rule round64_near [where E = 0 and n = 8556839292003946]) simp_all

lemma zoom_in_sum_10:
  "jadd (Num (4278419646001973 / 2251799813685248)) lit_0_1 = Num (2251799813685249 / 1125899906842624)"
  unfolding lit_0_1_value jadd.simps
  by (rule round64_near [where E = 1 and n = 4503599627370498]) simp_all

lemma zoom_in_step:
  assumes "scale c = Num s" and "jadd (Num s) lit_0_1 = Num t"
    and "3602879701896397 / 36028797018963968 \<le> t" and "t \<le> 2"
  shows "scale (zoom lit_0_1 c) = Num t"
  using assms by (simp add: scale_zoom clamp_Num)

lemma ten_zooms_in:
  "scale (canvas_run (replicate 10 (Zoom lit_0_1)) MindMapCanvas_constructor) = Num 2"
proof -
  define c0 where "c0 = MindMapCanvas_constructor"
  define c1 where "c1 = zoom lit_0_1 c0"
  define c2 where "c2 = zoom lit_0_1 c1"
  define c3 where "c3 = zoom lit_0_1 c2"
  define c4 where "c4 = zoom lit_0_1 c3"
  define c5 where "c5 = zoom lit_0_1 c4"
  define c6 where "c6 = zoom lit_0_1 c5"
  define c7 where "c7 = zoom lit_0_1 c6"
  define c8 where "c8 = zoom lit_0_1 c7"
  define c9 where "c9 = zoom lit_0_1 c8"
  define c10 where "c10 = zoom lit_0_1 c9"
  have "scale c0 = Num 1" by (simp add: c0_def MindMapCanvas_constructor_def)
  then have "scale c1 = Num (2476979795053773 / 2251799813685248)"
    unfolding c1_def by (rule zoom_in_step) (simp_all add: zoom_in_sum_1)
  then have "scale c2 = Num (1351079888211149 / 1125899906842624)"
    unfolding c2_def by (rule zoom_in_step) (simp_all add: zoom_in_sum_2)
  then have "scale c3 = Num (2927339757790823 / 2251799813685248)"
    unfolding c3_def by (rule zoom_in_step) (simp_all add: zoom_in_sum_3)
  then have "scale c4 = Num (788129934789837 / 562949953421312)"
    unfolding c4_def by (rule zoom_in_step) (simp_all add: zoom_in_sum_4)
  then have "scale c5 = Num (3377699720527873 / 2251799813685248)"
    unfolding c5_def by (rule zoom_in_step) (simp_all add: zoom_in_sum_5)
  then have "scale c6 = Num (1801439850948199 / 1125899906842624)"
    unfolding c6_def by (rule zoom_in_step) (simp_all add: zoom_in_sum_6)
  then have "scale c7 = Num (3828059683264923 / 2251799813685248)"
    unfolding c7_def by (rule zoom_in_step) (simp_all add: zoom_in_sum_7)
  then have "scale c8 = Num (506654958079181 / 281474976710656)"
    unfolding c8_def by (rule zoom_in_step) (simp_all add: zoom_in_sum_8)
  then have "scale c9 = Num (4278419646001973 / 2251799813685248)"
    unfolding c9_def by (rule zoom_in_step) (simp_all add: zoom_in_sum_9)
  then have "scale c10 = Num 2"
    unfolding c10_def by (simp add: scale_zoom zoom_in_sum_10 clamp_Num)
  moreover have "canvas_run (replicate 10 (Zoom lit_0_1)) MindMapCanvas_constructor = c10"
    by (simp add: eval_nat_numeral c10_def c9_def c8_def c7_def c6_def c5_def c4_def c3_def c2_def
        c1_def c0_def)
  ultimately show ?thesis by simp
qed

lemma zero_le_lit_0_1: "jle (Num 0) lit_0_1"
  by (simp add: lit_0_1_value)

lemma in_range_step:
  assumes "in_range (scale c)" and "\<forall>delta. op = Zoom delta \<longrightarrow> delta \<noteq> NaN"
  shows "in_range (scale (canvas_step c op))"
proof (cases op)
  case (Zoom delta)
  from assms(1) obtain s where s: "scale c = Num s"
    unfolding in_range_def lit_0_1_value by (cases "scale c") simp_all
  from assms(2) Zoom have "delta \<noteq> NaN" by simp
  then have "jadd (scale c) delta \<noteq> NaN" unfolding s by (rule jadd_Num_not_NaN)
  then show ?thesis by (simp add: Zoom scale_zoom clamp_in_range)
qed (use assms(1) in \<open>simp_all add: addNode_def addEdge_def handleNodeMoved_def handleNodeSelected_def\<close>)

lemma in_range_run:
  "in_range (scale c) \<Longrightarrow> \<forall>delta. Zoom delta \<in> set ops \<longrightarrow> delta \<noteq> NaN \<Longrightarrow>
     in_range (scale (canvas_run ops c))"
proof (induction ops arbitrary: c)
  case Nil
  then show ?case by simp
next
  case (Cons op ops)
  have "in_range (scale (canvas_step c op))"
    by (rule in_range_step) (use Cons.prems in auto)
  then show ?case using Cons.prems by (simp add: Cons.IH)
qed

lemma in_range_initial: "in_range (scale MindMapCanvas_constructor)"
  by (simp add: in_range_def MindMapCanvas_constructor_def lit_0_1_value)

text \<open>
  Claim C1. For every scale \<open>s\<close> and every delta \<open>d\<close>, \<open>zoom(d)\<close> sets the scale to
  \<open>max(0.1, min(2, s + d))\<close>, with the sum, the minimum and the maximum of JavaScript.
  When the sum is a finite number this is the clamped sum; a sum at or below \<open>0.1\<close>
  gives exactly \<open>0.1\<close> and a sum at or above \<open>2\<close> gives exactly \<open>2\<close>. Once the scale is
  \<open>0.1\<close>, any number of further zooms by deltas that are not positive leave it at
  exactly \<open>0.1\<close>; once it is \<open>2\<close>, any number of further zooms by deltas that are not
  negative leave it at exactly \<open>2\<close>.
\<close>

theorem zoom_clamped:
  "scale (zoom d c) = Math_max lit_0_1 (Math_min (Num 2) (jadd (scale c) d)) \<and>
   (\<forall>r. jadd (scale c) d = Num r \<longrightarrow>
      scale (zoom d c) = Num (max (3602879701896397 / 36028797018963968) (min 2 r))) \<and>
   (jle (jadd (scale c) d) lit_0_1 \<longrightarrow> scale (zoom d c) = lit_0_1) \<and>
   (jle (Num 2) (jadd (scale c) d) \<longrightarrow> scale (zoom d c) = Num 2) \<and>
   (scale c = lit_0_1 \<and> (\<forall>d' \<in> set ds. jle d' (Num 0)) \<longrightarrow>
      scale (canvas_run (map Zoom ds) c) = lit_0_1) \<and>
   (scale c = Num 2 \<and> (\<forall>d' \<in> set ds. jle (Num 0) d') \<longrightarrow>
      scale (canvas_run (map Zoom ds) c) = Num 2)"
  by (simp add: scale_zoom clamp_Num clamp_low clamp_high zooms_out_at_min zooms_in_at_max)

theorem zoom_clamped_witness:
  "scale (zoom lit_0_1 MindMapCanvas_constructor) = Num (2476979795053773 / 2251799813685248) \<and>
   scale (canvas_run (map Zoom [Num (- 1), NegInf, Num 0])
            (MindMapCanvas_constructor\<lparr>scale := lit_0_1\<rparr>)) = lit_0_1 \<and>
   scale (canvas_run (map Zoom [Num 1, PosInf, Num 0])
            (MindMapCanvas_constructor\<lparr>scale := Num 2\<rparr>)) = Num 2"
proof -
  have s: "jadd (scale MindMapCanvas_constructor) lit_0_1 = Num (2476979795053773 / 2251799813685248)"
    by (simp add: MindMapCanvas_constructor_def zoom_in_sum_1)
  have 1: "scale (zoom lit_0_1 MindMapCanvas_constructor) = Num (2476979795053773 / 2251799813685248)"
  proof -
    from zoom_clamped [of lit_0_1 MindMapCanvas_constructor "[]"]
    have "\<forall>r. jadd (scale MindMapCanvas_constructor) lit_0_1 = Num r \<longrightarrow>
        scale (zoom lit_0_1 MindMapCanvas_constructor) =
          Num (max (3602879701896397 / 36028797018963968) (min 2 r))"
      by blast
    with s have "scale (zoom lit_0_1 MindMapCanvas_constructor) =
        Num (max (3602879701896397 / 36028797018963968)
          (min 2 (2476979795053773 / 2251799813685248)))"
      by blast
    then show ?thesis by simp
  qed
  have 2: "scale (canvas_run (map Zoom [Num (- 1), NegInf, Num 0])
            (MindMapCanvas_constructor\<lparr>scale := lit_0_1\<rparr>)) = lit_0_1"
    using zoom_clamped [of "Num (- 1)" "MindMapCanvas_constructor\<lparr>scale := lit_0_1\<rparr>" "[Num (- 1), NegInf, Num 0]"]
    by simp
  have 3: "scale (canvas_run (map Zoom [Num 1, PosInf, Num 0])
            (MindMapCanvas_constructor\<lparr>scale := Num 2\<rparr>)) = Num 2"
    using zoom_clamped [of "Num 1" "MindMapCanvas_constructor\<lparr>scale := Num 2\<rparr>" "[Num 1, PosInf, Num 0]"]
    by simp
  from 1 2 3 show ?thesis by simp
qed

text \<open>
  Claim C8. Starting from the constructor's scale \<open>1\<close>, twenty-five calls of
  \<open>zoom(0.1)\<close> leave the scale at exactly \<open>2\<close>. In binary64 the tenth call is the first
  whose sum exceeds \<open>2\<close>.
\<close>

theorem zoom_in_25_times:
  "scale (canvas_run (replicate 25 (Zoom lit_0_1)) MindMapCanvas_constructor) = Num 2"
proof -
  have "replicate 25 (Zoom lit_0_1) = replicate 10 (Zoom lit_0_1) @ map Zoom (replicate 15 lit_0_1)"
    by (simp add: replicate_add [symmetric])
  then have "canvas_run (replicate 25 (Zoom lit_0_1)) MindMapCanvas_constructor =
      canvas_run (map Zoom (replicate 15 lit_0_1))
        (canvas_run (replicate 10 (Zoom lit_0_1)) MindMapCanvas_constructor)"
    by (simp only: canvas_run_append)
  moreover have "scale (canvas_run (map Zoom (replicate 15 lit_0_1))
        (canvas_run (replicate 10 (Zoom lit_0_1)) MindMapCanvas_constructor)) = Num 2"
    by (rule zooms_in_at_max [OF ten_zooms_in]) (simp add: zero_le_lit_0_1)
  ultimately show ?thesis by simp
qed

text \<open>
  Claim C9, as the program has it. The scale lies in \<open>[0.1, 2]\<close> in the initial state and
  after every sequence of \<open>addNode\<close>, \<open>addEdge\<close>, \<open>zoom\<close> and notification handler
  calls in which no zoom delta is \<open>NaN\<close>.
\<close>

theorem scale_in_range:
  "in_range (scale MindMapCanvas_constructor) \<and>
   ((\<forall>delta. Zoom delta \<in> set ops \<longrightarrow> delta \<noteq> NaN) \<longrightarrow>
      in_range (scale (canvas_run ops MindMapCanvas_constructor)))"
  using in_range_initial in_range_run by blast

theorem scale_in_range_witness:
  "in_range (scale (canvas_run
     [AddNode ''0.i'' ''A'' (Num 10) (Num 10), Zoom lit_0_1, Zoom PosInf,
      NodeMoved \<lparr>moved_id = ''i'', moved_x = NaN, moved_y = Num 3\<rparr>,
      AddEdge ''0.j'' ''i'' ''i'', NodeSelected ''i'', Zoom (Num (- 5))]
     MindMapCanvas_constructor))"
  using scale_in_range
    [of "[AddNode ''0.i'' ''A'' (Num 10) (Num 10), Zoom lit_0_1, Zoom PosInf,
          NodeMoved \<lparr>moved_id = ''i'', moved_x = NaN, moved_y = Num 3\<rparr>,
          AddEdge ''0.j'' ''i'' ''i'', NodeSelected ''i'', Zoom (Num (- 5))]"]
  by (auto simp: lit_0_1_value)

text \<open>
  Claim C9 as stated, for every sequence of operations, fails: \<open>zoom(NaN)\<close> stores
  \<open>NaN\<close>, since \<^verbatim>\<open>Math.min\<close> and \<^verbatim>\<open>Math.max\<close> return \<open>NaN\<close> for a \<open>NaN\<close> argument.
\<close>

theorem scale_out_of_range_counterexample:
  "\<not> in_range (scale (canvas_run [Zoom NaN] MindMapCanvas_constructor))"
  by (simp add: zoom_def in_range_def Math_max_def Math_min_def MindMapCanvas_constructor_def)

section \<open>Nodes and edges of the canvas\<close>

lemma example_canvas_value:
  "example_canvas =
     \<lparr>nodes = [\<lparr>node_id = ''a1'', node_content = ''A'', node_x = Num 10, node_y = Num 10\<rparr>,
               \<lparr>node_id = ''b2'', node_content = ''B'', node_x = Num 50, node_y = Num 50\<rparr>],
      edges = [\<lparr>edge_id = ''c3'', sourceId = ''a1'', targetId = ''b2''\<rparr>],
      scale = Num 1\<rparr>"
  by (simp add: example_canvas_def addNode_def addEdge_def generateId_def MindMapCanvas_constructor_def)

lemma addNode_calls:
  "nodes (canvas_run (map add_call calls) c) = nodes c @ map new_node calls"
  by (induction calls arbitrary: c) (auto simp: addNode_def)

lemma node_id_new_node: "node_id (new_node call) = generateId (fst call)"
  by (cases call) simp

lemma addNode_calls_distinct:
  assumes "distinct (map node_id (nodes c) @ map (\<lambda>call. generateId (fst call)) calls)"
  shows "distinct (map node_id (nodes (canvas_run (map add_call calls) c)))"
proof -
  have "map node_id (nodes (canvas_run (map add_call calls) c)) =
      map node_id (nodes c) @ map (\<lambda>call. generateId (fst call)) calls"
    by (simp add: addNode_calls node_id_new_node)
  with assms show ?thesis by (simp only:)
qed

text \<open>
  Claim C3. A sequence of \<^verbatim>\<open>addNode\<close> calls appends one node per call, in call order, with
  the given content and position and the id generated in that call (\<open>addNode_calls\<close>), and
  the ids are pairwise distinct when the generated ids are (\<open>addNode_calls_distinct\<close>).
  The generated ids need not be: the source presents \<^verbatim>\<open>generateId\<close> as a "utility function
  for generating unique IDs", yet it is a function of the random draw alone, and of its
  first nine base-36 digits only. Two calls in which \<^verbatim>\<open>Math.random()\<close> returns one half
  give two nodes with the id \<^verbatim>\<open>i\<close>.
\<close>

theorem addNode_ids_collide:
  "map node_id (nodes (canvas_run
      [AddNode ''0.i'' ''A'' (Num 10) (Num 10), AddNode ''0.i'' ''B'' (Num 50) (Num 50)]
      MindMapCanvas_constructor)) = [''i'', ''i'']"
  by (simp add: addNode_def generateId_def MindMapCanvas_constructor_def)

text \<open>
  Claim C7. \<^verbatim>\<open>addEdge(sourceId, targetId)\<close> appends one edge with the id generated in the
  call and the two ids as given, whatever they are: nothing is checked, the nodes, the
  earlier edges and the scale stay as they were, and the result does not depend on the
  node sequence.
\<close>

theorem addEdge_appends:
  "edges (addEdge random36 src tgt c) =
     edges c @ [\<lparr>edge_id = generateId random36, sourceId = src, targetId = tgt\<rparr>] \<and>
   nodes (addEdge random36 src tgt c) = nodes c \<and>
   scale (addEdge random36 src tgt c) = scale c \<and>
   (\<forall>ns. edges (addEdge random36 src tgt (c\<lparr>nodes := ns\<rparr>)) = edges (addEdge random36 src tgt c))"
  by (simp add: addEdge_def)

theorem addEdge_appends_witness:
  "edges (addEdge ''0.e5'' ''a1'' ''a1'' (addEdge ''0.d4'' ''a1'' ''nowhere'' example_canvas)) =
     [\<lparr>edge_id = ''c3'', sourceId = ''a1'', targetId = ''b2''\<rparr>,
      \<lparr>edge_id = ''d4'', sourceId = ''a1'', targetId = ''nowhere''\<rparr>,
      \<lparr>edge_id = ''e5'', sourceId = ''a1'', targetId = ''a1''\<rparr>]"
  using addEdge_appends [of "''0.e5''" "''a1''" "''a1''" "addEdge ''0.d4'' ''a1'' ''nowhere'' example_canvas"]
    addEdge_appends [of "''0.d4''" "''a1''" "''nowhere''" example_canvas]
  by (simp add: example_canvas_value generateId_def)

lemma nodes_handleNodeMoved:
  "nodes (handleNodeMoved detail c) =
     map (\<lambda>n. if node_id n = moved_id detail
                then n\<lparr>node_x := moved_x detail, node_y := moved_y detail\<rparr> else n) (nodes c)"
  by (simp add: handleNodeMoved_def)

lemma handleNodeMoved_unknown:
  assumes "\<forall>n \<in> set (nodes c). node_id n \<noteq> moved_id detail"
  shows "handleNodeMoved detail c = c"
proof -
  have "map (\<lambda>n. if node_id n = moved_id detail
                then n\<lparr>node_x := moved_x detail, node_y := moved_y detail\<rparr> else n) (nodes c)
        = nodes c"
    using assms by (simp add: map_idI)
  then show ?thesis by (simp add: handleNodeMoved_def)
qed

text \<open>
  Claim C4. On a \<^verbatim>\<open>node-moved\<close> notification \<open>(id, x, y)\<close> the node sequence keeps its
  length, every node whose id is the notification's has its \<open>x\<close> and \<open>y\<close> replaced by the
  carried values, and when no node has that id the canvas is left as it was.
\<close>

theorem node_moved_reconciled:
  "length (nodes (handleNodeMoved detail c)) = length (nodes c) \<and>
   (\<forall>i < length (nodes c). node_id (nodes c ! i) = moved_id detail \<longrightarrow>
      nodes (handleNodeMoved detail c) ! i =
        (nodes c ! i)\<lparr>node_x := moved_x detail, node_y := moved_y detail\<rparr>) \<and>
   ((\<forall>n \<in> set (nodes c). node_id n \<noteq> moved_id detail) \<longrightarrow> handleNodeMoved detail c = c)"
  by (simp add: nodes_handleNodeMoved handleNodeMoved_unknown)

theorem node_moved_reconciled_witness:
  "nodes (handleNodeMoved \<lparr>moved_id = ''b2'', moved_x = Num 7, moved_y = Num 8\<rparr> example_canvas) ! 1 =
     \<lparr>node_id = ''b2'', node_content = ''B'', node_x = Num 7, node_y = Num 8\<rparr> \<and>
   handleNodeMoved \<lparr>moved_id = ''zz'', moved_x = Num 7, moved_y = Num 8\<rparr> example_canvas = example_canvas"
proof -
  have "nodes (handleNodeMoved \<lparr>moved_id = ''b2'', moved_x = Num 7, moved_y = Num 8\<rparr> example_canvas) ! 1 =
     \<lparr>node_id = ''b2'', node_content = ''B'', node_x = Num 7, node_y = Num 8\<rparr>"
    using node_moved_reconciled [of "\<lparr>moved_id = ''b2'', moved_x = Num 7, moved_y = Num 8\<rparr>" example_canvas]
    by (simp add: example_canvas_value)
  moreover have "handleNodeMoved \<lparr>moved_id = ''zz'', moved_x = Num 7, moved_y = Num 8\<rparr> example_canvas = example_canvas"
    using node_moved_reconciled [of "\<lparr>moved_id = ''zz'', moved_x = Num 7, moved_y = Num 8\<rparr>" example_canvas]
    by (simp add: example_canvas_value)
  ultimately show ?thesis by simp
qed

lemma handleNodeMoved_single:
  assumes d: "distinct (map node_id (nodes c))"
    and i: "i < length (nodes c)" "nodes (handleNodeMoved detail c) ! i \<noteq> nodes c ! i"
    and j: "j < length (nodes c)" "nodes (handleNodeMoved detail c) ! j \<noteq> nodes c ! j"
  shows "i = j"
proof -
  from i have "node_id (nodes c ! i) = moved_id detail"
    by (auto simp: nodes_handleNodeMoved split: if_splits)
  moreover from j have "node_id (nodes c ! j) = moved_id detail"
    by (auto simp: nodes_handleNodeMoved split: if_splits)
  ultimately have "map node_id (nodes c) ! i = map node_id (nodes c) ! j"
    using i(1) j(1) by simp
  with d i(1) j(1) show ?thesis by (metis length_map nth_eq_iff_index_eq)
qed

text \<open>
  Claim C10, as the program has it. A \<^verbatim>\<open>node-moved\<close> notification changes at most the
  \<open>x\<close> and \<open>y\<close> fields of the nodes whose id is the notification's: the length and order
  of the node sequence, the edges and the scale are unchanged, every node keeps its id and
  content, and every node with another id is unchanged. When the node ids are pairwise
  distinct, at most one node changes.
\<close>

theorem node_moved_frame:
  "length (nodes (handleNodeMoved detail c)) = length (nodes c) \<and>
   edges (handleNodeMoved detail c) = edges c \<and>
   scale (handleNodeMoved detail c) = scale c \<and>
   (\<forall>i < length (nodes c).
      node_id (nodes (handleNodeMoved detail c) ! i) = node_id (nodes c ! i) \<and>
      node_content (nodes (handleNodeMoved detail c) ! i) = node_content (nodes c ! i) \<and>
      (node_id (nodes c ! i) \<noteq> moved_id detail \<longrightarrow>
         nodes (handleNodeMoved detail c) ! i = nodes c ! i)) \<and>
   (distinct (map node_id (nodes c)) \<longrightarrow>
      (\<forall>i j. i < length (nodes c) \<and> j < length (nodes c) \<and>
         nodes (handleNodeMoved detail c) ! i \<noteq> nodes c ! i \<and>
         nodes (handleNodeMoved detail c) ! j \<noteq> nodes c ! j \<longrightarrow> i = j))"
proof -
  let ?c' = "handleNodeMoved detail c"
  have len: "length (nodes ?c') = length (nodes c)"
    by (simp add: nodes_handleNodeMoved)
  have rest: "edges ?c' = edges c" "scale ?c' = scale c"
    by (simp_all add: handleNodeMoved_def)
  have each: "\<forall>i < length (nodes c).
      node_id (nodes ?c' ! i) = node_id (nodes c ! i) \<and>
      node_content (nodes ?c' ! i) = node_content (nodes c ! i) \<and>
      (node_id (nodes c ! i) \<noteq> moved_id detail \<longrightarrow> nodes ?c' ! i = nodes c ! i)"
    by (simp add: nodes_handleNodeMoved)
  have single: "distinct (map node_id (nodes c)) \<longrightarrow>
      (\<forall>i j. i < length (nodes c) \<and> j < length (nodes c) \<and>
         nodes ?c' ! i \<noteq> nodes c ! i \<and> nodes ?c' ! j \<noteq> nodes c ! j \<longrightarrow> i = j)"
    using handleNodeMoved_single by blast
  from len rest each single show ?thesis by (intro conjI)
qed

theorem node_moved_frame_witness:
  "nodes (handleNodeMoved \<lparr>moved_id = ''b2'', moved_x = Num 7, moved_y = Num 8\<rparr> example_canvas) ! 0 =
     nodes example_canvas ! 0 \<and>
   node_content (nodes (handleNodeMoved \<lparr>moved_id = ''b2'', moved_x = Num 7, moved_y = Num 8\<rparr>
     example_canvas) ! 1) = ''B'' \<and>
   edges (handleNodeMoved \<lparr>moved_id = ''b2'', moved_x = Num 7, moved_y = Num 8\<rparr> example_canvas) =
     edges example_canvas"
  using node_moved_frame [of "\<lparr>moved_id = ''b2'', moved_x = Num 7, moved_y = Num 8\<rparr>" example_canvas]
  by (simp add: example_canvas_value)

text \<open>
  Claim C10 as stated, with a single node changing, fails on a canvas that holds two nodes
  with one id, which two \<^verbatim>\<open>addNode\<close> calls with equal random draws produce: the
  notification moves both nodes.
\<close>

theorem node_moved_single_counterexample:
  "nodes (handleNodeMoved \<lparr>moved_id = ''i'', moved_x = Num 1, moved_y = Num 2\<rparr>
      (canvas_run [AddNode ''0.i'' ''A'' (Num 10) (Num 10), AddNode ''0.i'' ''B'' (Num 50) (Num 50)]
         MindMapCanvas_constructor)) ! 0
     \<noteq> nodes (canvas_run [AddNode ''0.i'' ''A'' (Num 10) (Num 10), AddNode ''0.i'' ''B'' (Num 50) (Num 50)]
         MindMapCanvas_constructor) ! 0 \<and>
   nodes (handleNodeMoved \<lparr>moved_id = ''i'', moved_x = Num 1, moved_y = Num 2\<rparr>
      (canvas_run [AddNode ''0.i'' ''A'' (Num 10) (Num 10), AddNode ''0.i'' ''B'' (Num 50) (Num 50)]
         MindMapCanvas_constructor)) ! 1
     \<noteq> nodes (canvas_run [AddNode ''0.i'' ''A'' (Num 10) (Num 10), AddNode ''0.i'' ''B'' (Num 50) (Num 50)]
         MindMapCanvas_constructor) ! 1"
  by (simp add: handleNodeMoved_def addNode_def generateId_def MindMapCanvas_constructor_def)

section \<open>Dragging a node\<close>

lemma onDrag_payload:
  "onDrag origin clientX clientY v = drag_payload (node_id (data v)) origin (clientX, clientY)"
  by (simp add: onDrag_def updatePosition_def drag_payload_def)

lemma fold_remove1_self: "fold remove1 xs (xs @ ys) = ys"
  by (induction xs) simp_all

lemma fold_onDragEnd:
  "fold onDragEnd os v = v\<lparr>drags := fold remove1 os (drags v)\<rparr>"
  by (induction os arbitrary: v) (simp_all add: onDragEnd_def)

lemma mouse_up: "view_step v MouseUp = (v\<lparr>drags := []\<rparr>, [])"
  using fold_remove1_self [of "drags v" "[]"] by (simp add: fold_onDragEnd)

lemma tracking_run:
  assumes "\<forall>e \<in> set es. tracking (node_id (data v)) e"
  shows "drags (fst (view_run v es)) = drags v \<and>
         node_id (data (fst (view_run v es))) = node_id (data v) \<and>
         snd (view_run v es) =
           concat (map (\<lambda>p. map (\<lambda>origin. drag_payload (node_id (data v)) origin p) (drags v))
                       (pointer_moves es))"
  using assms
proof (induction es arbitrary: v)
  case Nil
  then show ?case by simp
next
  case (Cons e es)
  obtain v' out where step: "view_step v e = (v', out)" by (cases "view_step v e")
  obtain v'' outs where run: "view_run v' es = (v'', outs)" by (cases "view_run v' es")
  from Cons.prems have e: "tracking (node_id (data v)) e"
    and es: "\<forall>e \<in> set es. tracking (node_id (data v)) e" by simp_all
  from e step have v': "drags v' = drags v" "node_id (data v') = node_id (data v)"
    by (cases e; auto)+
  from es have "\<forall>e \<in> set es. tracking (node_id (data v')) e" by (simp add: v')
  from Cons.IH [OF this] run
  have ih: "drags v'' = drags v" "node_id (data v'') = node_id (data v)"
    "outs = concat (map (\<lambda>p. map (\<lambda>origin. drag_payload (node_id (data v)) origin p) (drags v))
                       (pointer_moves es))"
    by (simp_all add: v')
  from e step have out: "out @ concat (map (\<lambda>p. map (\<lambda>origin. drag_payload (node_id (data v)) origin p) (drags v))
                       (pointer_moves es)) =
      concat (map (\<lambda>p. map (\<lambda>origin. drag_payload (node_id (data v)) origin p) (drags v))
                       (pointer_moves (e # es)))"
    by (cases e) (auto simp: onDrag_payload)
  have "view_run v (e # es) = (v'', out @ outs)" by (simp add: step run)
  then show ?case using ih out by simp
qed

lemma view_run_append:
  "view_run v (es @ es') =
     (case view_run v es of (v', out) \<Rightarrow>
        (case view_run v' es' of (v'', out') \<Rightarrow> (v'', out @ out')))"
  by (induction es arbitrary: v) (simp_all split: prod.splits)

text \<open>
  Claim C2. A view with no drag in progress, holding a node at \<open>(x0, y0)\<close>, is pressed at
  \<open>(p0x, p0y)\<close>. Until the release, while pointer moves arrive and the canvas binds new
  records of the same node, every move to \<open>(p1x, p1y)\<close> dispatches exactly one
  \<^verbatim>\<open>node-moved\<close> event, carrying the node's id and the position
  \<open>(x0 + (p1x - p0x), y0 + (p1y - p0y))\<close>. After the release, further moves dispatch nothing.
  The list on the right is, in order, everything dispatched during the whole run.
\<close>

theorem drag_round_trip:
  assumes "drags v = []"
    and "\<forall>e \<in> set es. tracking (node_id (data v)) e"
    and "\<forall>e \<in> set es'. tracking (node_id (data v)) e"
  shows "snd (view_run v (MouseDown p0x p0y # es @ MouseUp # es')) =
           map (\<lambda>p. \<lparr>moved_id = node_id (data v),
                      moved_x = jadd (node_x (data v)) (jsub (fst p) p0x),
                      moved_y = jadd (node_y (data v)) (jsub (snd p) p0y)\<rparr>)
               (pointer_moves es)"
proof -
  define v1 where "v1 = onDragStart p0x p0y v"
  define origin where "origin =
    \<lparr>startX = p0x, startY = p0y, startLeft = node_x (data v), startTop = node_y (data v)\<rparr>"
  have v1: "drags v1 = [origin]" "data v1 = data v"
    by (simp_all add: v1_def origin_def onDragStart_def assms(1))
  obtain v2 out where r2: "view_run v1 es = (v2, out)" by (cases "view_run v1 es")
  from assms(2) have "\<forall>e \<in> set es. tracking (node_id (data v1)) e" by (simp add: v1)
  from tracking_run [OF this] r2
  have v2: "node_id (data v2) = node_id (data v)"
    and out: "out = map (\<lambda>p. drag_payload (node_id (data v)) origin p) (pointer_moves es)"
    by (simp_all add: v1 concat_map_singleton)
  define v3 where "v3 = v2\<lparr>drags := []\<rparr>"
  obtain v4 out' where r4: "view_run v3 es' = (v4, out')" by (cases "view_run v3 es'")
  from assms(3) have "\<forall>e \<in> set es'. tracking (node_id (data v3)) e" by (simp add: v3_def v2)
  from tracking_run [OF this] r4 have out': "out' = []" by (simp add: v3_def)
  have "view_run v (MouseDown p0x p0y # es @ MouseUp # es') = (v4, out @ out')"
    using r2 r4 by (simp add: view_run_append mouse_up v1_def v3_def del: view_step.simps(3))
  then show ?thesis by (simp add: out out' drag_payload_def origin_def)
qed

lemma round64_30: "round64 30 = Num 30"
  by (rule round64_near [where E = 4 and n = "30 * 2 ^ 48"]) simp_all

lemma round64_40: "round64 40 = Num 40"
  by (rule round64_near [where E = 5 and n = "40 * 2 ^ 47"]) simp_all

lemma round64_minus_5: "round64 (- 5) = Num (- 5)"
  by (rule round64_near [where E = 2 and n = "- 5 * 2 ^ 50"]) simp_all

lemma round64_15: "round64 15 = Num 15"
  by (rule round64_near [where E = 3 and n = "15 * 2 ^ 49"]) simp_all

theorem drag_round_trip_witness:
  "snd (view_run example_view
     [MouseDown (Num 100) (Num 100),
      MouseMove (Num 130) (Num 95),
      SetData \<lparr>node_id = ''a1'', node_content = ''A'', node_x = Num 40, node_y = Num 15\<rparr>,
      MouseUp,
      MouseMove (Num 300) (Num 300)]) =
   [\<lparr>moved_id = ''a1'', moved_x = Num 40, moved_y = Num 15\<rparr>]"
proof -
  let ?es = "[MouseMove (Num 130) (Num 95),
      SetData \<lparr>node_id = ''a1'', node_content = ''A'', node_x = Num 40, node_y = Num 15\<rparr>]"
  let ?es' = "[MouseMove (Num 300) (Num 300)]"
  have idle: "drags example_view = []" by (simp add: example_view_def)
  have during: "\<forall>e \<in> set ?es. tracking (node_id (data example_view)) e"
    by (simp add: example_view_def)
  have after: "\<forall>e \<in> set ?es'. tracking (node_id (data example_view)) e"
    by simp
  have "snd (view_run example_view (MouseDown (Num 100) (Num 100) # ?es @ MouseUp # ?es')) =
      map (\<lambda>p. \<lparr>moved_id = node_id (data example_view),
                 moved_x = jadd (node_x (data example_view)) (jsub (fst p) (Num 100)),
                 moved_y = jadd (node_y (data example_view)) (jsub (snd p) (Num 100))\<rparr>)
          (pointer_moves ?es)"
    by (rule drag_round_trip [OF idle during after])
  also have "\<dots> = [\<lparr>moved_id = ''a1'', moved_x = Num 40, moved_y = Num 15\<rparr>]"
    by (simp add: example_view_def round64_30 round64_40 round64_minus_5 round64_15)
  finally show ?thesis by (simp only: append.simps)
qed

section \<open>Drawing an edge\<close>

lemma split_at_first:
  "c \<notin> set a \<Longrightarrow> split_at c (a @ c # b) = Some (a, b)"
  by (induction a) auto

lemma css_plain_no_quote: "list_all css_plain i \<Longrightarrow> CHR 0x22 \<notin> set i"
  by (auto simp: list_all_iff css_plain_def)

lemma parse_node_selector:
  assumes "list_all css_plain i"
  shows "parse_selector (node_selector i) = Some (''mind-map-node'', ''data-id'', i)"
proof -
  have 1: "split_at CHR ''['' (node_selector i) =
      Some (''mind-map-node'', ''data-id='' @ CHR 0x22 # i @ CHR 0x22 # '']'')"
    using split_at_first [of "CHR ''[''" "''mind-map-node''" "''data-id='' @ CHR 0x22 # i @ CHR 0x22 # '']''"]
    by (simp add: node_selector_def)
  have 2: "split_at CHR ''='' (''data-id='' @ CHR 0x22 # i @ CHR 0x22 # '']'') =
      Some (''data-id'', CHR 0x22 # i @ CHR 0x22 # '']'')"
    using split_at_first [of "CHR ''=''" "''data-id''" "CHR 0x22 # i @ CHR 0x22 # '']''"]
    by simp
  have 3: "split_at (CHR 0x22) (i @ CHR 0x22 # '']'') = Some (i, '']'')"
    by (rule split_at_first) (rule css_plain_no_quote [OF assms])
  show ?thesis
    unfolding parse_selector_def 1 2 using 3 assms by (simp add: css_name_char_def)
qed

lemma querySelector_node:
  assumes "list_all css_plain i"
  shows "querySelector parent (node_selector i) =
     Inr (find (\<lambda>el. tagName el = ''mind-map-node'' \<and> map_of (attributes el) ''data-id'' = Some i)
            parent)"
  by (simp add: querySelector_def parse_node_selector [OF assms])

lemma mounted_no_attributes: "el \<in> set (mounted layout c) \<Longrightarrow> attributes el = []"
  by (auto simp: mounted_def mount_def)

lemma find_in_mounted:
  "find (\<lambda>el. tagName el = t \<and> map_of (attributes el) a = Some v) (mounted layout c) = None"
  by (auto simp: find_None_iff dest: mounted_no_attributes)

lemma querySelector_mounted:
  "list_all css_plain i \<Longrightarrow> querySelector (mounted layout c) (node_selector i) = Inr None"
  by (simp add: querySelector_node find_in_mounted)

lemma edge_never_drawn:
  assumes "list_all css_plain (sourceId e)" and "list_all css_plain (targetId e)"
  shows "MindMapEdge_render (mounted layout c) e = Inr Nothing"
  by (simp add: MindMapEdge_render_def querySelector_mounted assms)

lemma edge_between_centers:
  assumes "querySelector parent (node_selector (sourceId e)) = Inr (Some s)"
    and "querySelector parent (node_selector (targetId e)) = Inr (Some t)"
  shows "MindMapEdge_render parent e =
     Inr (Line (center_x (boundingClientRect s)) (center_y (boundingClientRect s))
               (center_x (boundingClientRect t)) (center_y (boundingClientRect t)))"
  by (simp add: MindMapEdge_render_def assms center_x_def center_y_def Let_def)

lemma edge_missing_node:
  assumes "list_all css_plain (sourceId e)" and "list_all css_plain (targetId e)"
    and "querySelector parent (node_selector (sourceId e)) = Inr None \<or>
         querySelector parent (node_selector (targetId e)) = Inr None"
  shows "MindMapEdge_render parent e = Inr Nothing"
  using assms by (auto simp: MindMapEdge_render_def querySelector_node split: option.splits)

text \<open>
  Claim C5. When both lookups find an element, the edge is the line between the centres
  \<open>(left + width / 2, top + height / 2)\<close> of the two rectangles (\<open>edge_between_centers\<close>).
  In the tree the canvas renders they never do: the lookup asks for the attribute
  \<^verbatim>\<open>data-id\<close>, which no element carries (\<open>edge_never_drawn\<close>). In the scenario of the
  specification, with both nodes mounted and whatever the layout, the edge that joins them
  renders the empty template.
\<close>

theorem edge_not_drawn:
  "MindMapEdge_render (mounted layout example_canvas)
     \<lparr>edge_id = ''c3'', sourceId = ''a1'', targetId = ''b2''\<rparr> = Inr Nothing"
  by (rule edge_never_drawn) (simp_all add: css_plain_def)

text \<open>
  Claim C6. The render is a function of the current tree and the edge alone, so every pass
  looks the nodes up again, and for ids made of plain characters a failed lookup gives the
  empty template (\<open>edge_missing_node\<close>). An id is placed in the selector text as it is,
  though: for the target id \<^verbatim>\<open>x"y\<close>, which names no node, the text is
  \<^verbatim>\<open>mind-map-node[data-id="x"y"]\<close>, \<^verbatim>\<open>querySelector\<close> throws, and so does the render.
\<close>

theorem edge_render_throws:
  "MindMapEdge_render (mounted layout example_canvas)
     \<lparr>edge_id = ''d4'', sourceId = ''a1'', targetId = ''x'' @ [CHR 0x22] @ ''y''\<rparr> = Inl SyntaxError"
proof -
  have "querySelector (mounted layout example_canvas) (node_selector ''a1'') = Inr None"
    by (rule querySelector_mounted) (simp add: css_plain_def)
  moreover have "parse_selector (node_selector (''x'' @ [CHR 0x22] @ ''y'')) = None"
    by (simp add: parse_selector_def node_selector_def)
  ultimately show ?thesis by (simp add: MindMapEdge_render_def querySelector_def)
qed

end
